theory Spec2Isabelle
  imports Main "HOL-Library.AList" "HOL-Library.Multiset" "HOL-Library.Char_ord"
    "HOL-Library.List_Lexorder"
begin

section \<open>JavaScript values and strings\<close>

text \<open>
  The CSV parser is called with \<^verbatim>\<open>header: true, dynamicTyping: false\<close>, so a cell
  that a row object has is a string; \<^verbatim>\<open>null\<close> is the initial value of \<^verbatim>\<open>example\<close>. The
  rows are plain objects, so reading a key that a row lacks gives \<^verbatim>\<open>undefined\<close>, unless
  the key names a property of \<^verbatim>\<open>Object.prototype\<close>: then the read gives that property,
  a built-in function (the prototype object itself for \<^verbatim>\<open>__proto__\<close>). \<open>Inherited k\<close> is
  the value of the property \<open>k\<close> of \<^verbatim>\<open>Object.prototype\<close>. A \<open>char\<close> stands for one code unit
  of a JavaScript string (the code units up to 255 are representable).
\<close>

datatype jsval = Undefined | Null | Str string | Inherited string

text \<open>The names of the properties of \<^verbatim>\<open>Object.prototype\<close> (ECMA-262, with its annex B).\<close>

definition Object_prototype_names :: "string list" where
  "Object_prototype_names =
     [''constructor'', ''hasOwnProperty'', ''isPrototypeOf'', ''propertyIsEnumerable'',
      ''toLocaleString'', ''toString'', ''valueOf'', ''__proto__'',
      ''__defineGetter__'', ''__defineSetter__'', ''__lookupGetter__'', ''__lookupSetter__'']"

text \<open>\<^verbatim>\<open>v == null\<close> holds of \<^verbatim>\<open>null\<close> and \<^verbatim>\<open>undefined\<close> only.\<close>

definition loose_eq_null :: "jsval \<Rightarrow> bool" where
  "loose_eq_null v = (v = Undefined \<or> v = Null)"

text \<open>
  \<^verbatim>\<open>String.prototype.trim\<close> strips white space and line terminators from both ends:
  TAB, LF, VT, FF, CR, SP and NBSP among the code units up to 255.
\<close>

definition is_white_space :: "char \<Rightarrow> bool" where
  "is_white_space c =
     (c \<in> set [CHR 0x09, CHR 0x0A, CHR 0x0B, CHR 0x0C, CHR 0x0D, CHR 0x20, CHR 0xA0])"

definition trim :: "string \<Rightarrow> string" where
  "trim s = rev (dropWhile is_white_space (rev (dropWhile is_white_space s)))"

text \<open>\<^verbatim>\<open>Array.prototype.includes\<close> on an array of strings.\<close>

definition array_includes :: "string list \<Rightarrow> jsval \<Rightarrow> bool" where
  "array_includes xs v = (case v of Str s \<Rightarrow> List.member xs s | _ \<Rightarrow> False)"

section \<open>Regular expressions\<close>

text \<open>
  The two patterns of \<^verbatim>\<open>detectType\<close> use literal characters, the class \<^verbatim>\<open>\d\<close>
  (the ten ASCII digits), \<^verbatim>\<open>?\<close>, \<^verbatim>\<open>*\<close>, \<^verbatim>\<open>+\<close> and concatenation, anchored at both
  ends with no flags. \<^verbatim>\<open>RegExp.prototype.test\<close> of such a pattern decides whether the
  whole string is in the pattern's language; the matcher below decides it by
  Brzozowski derivatives.
\<close>

datatype regex =
    Zero
  | One
  | Chr char
  | Digit
  | Alt regex regex
  | Seq regex regex
  | Star regex

definition Opt :: "regex \<Rightarrow> regex" where
  "Opt r = Alt r One"

definition Plus :: "regex \<Rightarrow> regex" where
  "Plus r = Seq r (Star r)"

definition is_digit :: "char \<Rightarrow> bool" where
  "is_digit c = (c \<in> set ''0123456789'')"

fun nullable :: "regex \<Rightarrow> bool" where
  "nullable Zero = False"
| "nullable One = True"
| "nullable (Chr c) = False"
| "nullable Digit = False"
| "nullable (Alt r s) = (nullable r \<or> nullable s)"
| "nullable (Seq r s) = (nullable r \<and> nullable s)"
| "nullable (Star r) = True"

fun deriv :: "char \<Rightarrow> regex \<Rightarrow> regex" where
  "deriv a Zero = Zero"
| "deriv a One = Zero"
| "deriv a (Chr c) = (if a = c then One else Zero)"
| "deriv a Digit = (if is_digit a then One else Zero)"
| "deriv a (Alt r s) = Alt (deriv a r) (deriv a s)"
| "deriv a (Seq r s) =
     (if nullable r then Alt (Seq (deriv a r) s) (deriv a s) else Seq (deriv a r) s)"
| "deriv a (Star r) = Seq (deriv a r) (Star r)"

text \<open>\<^verbatim>\<open>/^r$/.test(s)\<close> for a string \<open>s\<close>.\<close>

definition regex_test :: "regex \<Rightarrow> string \<Rightarrow> bool" where
  "regex_test r s = nullable (fold deriv s r)"

text \<open>\<^verbatim>\<open>/^-?\d+$/\<close> and \<^verbatim>\<open>/^-?\d*\.\d+$/\<close>.\<close>

definition int_re :: regex where
  "int_re = Seq (Opt (Chr CHR ''-'')) (Plus Digit)"

definition float_re :: regex where
  "float_re = Seq (Opt (Chr CHR ''-'')) (Seq (Star Digit) (Seq (Chr CHR ''.'') (Plus Digit)))"

text \<open>The language of a pattern, the reference for the matcher.\<close>

definition conc :: "string set \<Rightarrow> string set \<Rightarrow> string set" where
  "conc A B = {u @ v | u v. u \<in> A \<and> v \<in> B}"

inductive_set star :: "string set \<Rightarrow> string set" for A :: "string set" where
  star_nil: "[] \<in> star A"
| star_app: "u \<in> A \<Longrightarrow> v \<in> star A \<Longrightarrow> u @ v \<in> star A"

fun lang :: "regex \<Rightarrow> string set" where
  "lang Zero = {}"
| "lang One = {[]}"
| "lang (Chr c) = {[c]}"
| "lang Digit = {[c] | c. is_digit c}"
| "lang (Alt r s) = lang r \<union> lang s"
| "lang (Seq r s) = conc (lang r) (lang s)"
| "lang (Star r) = star (lang r)"

section \<open>The runtime's Date\<close>

text \<open>
  \<^verbatim>\<open>new Date(value)\<close> of a string is \<^verbatim>\<open>Date.parse\<close>; the time value is a number of
  milliseconds since the epoch in UTC, or NaN (here \<open>None\<close>). ECMA-262 fixes the
  result for its date-time string format and leaves every other string to the
  implementation; the getters \<^verbatim>\<open>getHours\<close>, \<^verbatim>\<open>getMinutes\<close>, \<^verbatim>\<open>getSeconds\<close> read the
  time value in the local time zone. What the implementation and the host decide
  is a parameter: the parser for strings outside the date-only form
  \<^verbatim>\<open>YYYY-MM-DD\<close>, the local offset from UTC in milliseconds at a time value, and the
  source text that \<^verbatim>\<open>Function.prototype.toString\<close> gives for the built-in function that
  \<^verbatim>\<open>Object.prototype\<close> has under a name, after its first word \<^verbatim>\<open>function\<close>.
\<close>

record js_runtime =
  parse_other :: "string \<Rightarrow> int option"
  LocalTZA :: "int \<Rightarrow> int"
  function_text :: "string \<Rightarrow> string"

definition msPerDay :: int where
  "msPerDay = 86400000"

definition DayFromYear :: "int \<Rightarrow> int" where
  "DayFromYear y =
     365 * (y - 1970) + (y - 1969) div 4 - (y - 1901) div 100 + (y - 1601) div 400"

definition InLeapYear :: "int \<Rightarrow> bool" where
  "InLeapYear y = (y mod 4 = 0 \<and> (y mod 100 \<noteq> 0 \<or> y mod 400 = 0))"

definition DaysInMonth :: "int \<Rightarrow> nat \<Rightarrow> int" where
  "DaysInMonth y m =
     (if m = 2 then (if InLeapYear y then 29 else 28)
      else if m \<in> set [4, 6, 9, 11] then 30 else 31)"

text \<open>Days before the first of month \<open>m\<close> (1 to 12) within year \<open>y\<close>.\<close>

definition DaysBeforeMonth :: "int \<Rightarrow> nat \<Rightarrow> int" where
  "DaysBeforeMonth y m = sum_list (map (DaysInMonth y) [1 ..< m])"

definition MakeDay :: "int \<Rightarrow> nat \<Rightarrow> int \<Rightarrow> int" where
  "MakeDay y m d = DayFromYear y + DaysBeforeMonth y m + d - 1"

definition digit_val :: "char \<Rightarrow> nat" where
  "digit_val c = of_char c - 48"

definition digits_val :: "string \<Rightarrow> nat" where
  "digits_val ds = foldl (\<lambda>n c. 10 * n + digit_val c) 0 ds"

text \<open>
  The date-only form \<^verbatim>\<open>YYYY-MM-DD\<close> of the date-time string format, with a month and a
  day that exist: it is read as midnight UTC of that day.
\<close>

definition parse_date_only :: "string \<Rightarrow> int option" where
  "parse_date_only s =
     (case s of
        [y1, y2, y3, y4, h1, m1, m2, h2, d1, d2] \<Rightarrow>
          (let y = int (digits_val [y1, y2, y3, y4]);
               m = digits_val [m1, m2];
               d = int (digits_val [d1, d2])
           in if list_all is_digit [y1, y2, y3, y4, m1, m2, d1, d2]
                 \<and> h1 = CHR ''-'' \<and> h2 = CHR ''-''
                 \<and> 1 \<le> m \<and> m \<le> 12 \<and> 1 \<le> d \<and> d \<le> DaysInMonth y m
              then Some (MakeDay y m d * msPerDay) else None)
      | _ \<Rightarrow> None)"

definition Date_parse :: "js_runtime \<Rightarrow> string \<Rightarrow> int option" where
  "Date_parse rt s =
     (case parse_date_only s of Some t \<Rightarrow> Some t | None \<Rightarrow> parse_other rt s)"

definition LocalTime :: "js_runtime \<Rightarrow> int \<Rightarrow> int" where
  "LocalTime rt t = t + LocalTZA rt t"

definition getHours :: "js_runtime \<Rightarrow> int \<Rightarrow> int" where
  "getHours rt t = (LocalTime rt t div 3600000) mod 24"

definition getMinutes :: "js_runtime \<Rightarrow> int \<Rightarrow> int" where
  "getMinutes rt t = (LocalTime rt t div 60000) mod 60"

definition getSeconds :: "js_runtime \<Rightarrow> int \<Rightarrow> int" where
  "getSeconds rt t = (LocalTime rt t div 1000) mod 60"

section \<open>The value classifier\<close>

text \<open>
  \<^verbatim>\<open>RegExp.prototype.test\<close> and \<^verbatim>\<open>new Date\<close> work on the string of their argument: the
  argument itself when it is a string; for a built-in function its source text, which
  has the syntax \<^verbatim>\<open>function name(...) { [native code] }\<close> and so starts with the word
  \<^verbatim>\<open>function\<close>; for the prototype object the text \<^verbatim>\<open>[object Object]\<close>. \<^verbatim>\<open>detectType\<close> has
  returned before it converts \<^verbatim>\<open>undefined\<close> or \<^verbatim>\<open>null\<close>.
\<close>

definition ToString :: "js_runtime \<Rightarrow> jsval \<Rightarrow> string" where
  "ToString rt v =
     (case v of
        Undefined \<Rightarrow> ''undefined''
      | Null \<Rightarrow> ''null''
      | Str s \<Rightarrow> s
      | Inherited k \<Rightarrow>
          if k = ''__proto__'' then ''[object Object]'' else ''function'' @ function_text rt k)"

text \<open>\<^verbatim>\<open>detectType\<close> of main.js, rule by rule in the order of the source.\<close>

definition detectType :: "js_runtime \<Rightarrow> jsval \<Rightarrow> string" where
  "detectType rt v =
     (if v = Str '''' \<or> loose_eq_null v
         \<or> (case v of Str s \<Rightarrow> trim s = '''' | _ \<Rightarrow> False)
         \<or> v = Str ''NA'' \<or> v = Str ''NULL''
      then ''text''
      else if array_includes [''true'', ''false'', ''True'', ''False'', ''0'', ''1''] v
      then ''bool''
      else if regex_test int_re (ToString rt v) then ''int''
      else if regex_test float_re (ToString rt v) then ''float''
      else (case Date_parse rt (ToString rt v) of
          Some t \<Rightarrow>
            if getHours rt t = 0 \<and> getMinutes rt t = 0 \<and> getSeconds rt t = 0
            then ''date''
            else ''datetime''
        | None \<Rightarrow> ''text''))"

section \<open>Objects\<close>

text \<open>
  An ordinary object is the list of its own properties in creation order. Assigning
  to an existing key keeps its place and assigning to a new key appends it
  (\<open>AList.update\<close>). \<^verbatim>\<open>Object.keys\<close> and \<^verbatim>\<open>Object.entries\<close> enumerate the keys that
  are array indices first, in ascending numeric order, and then the other keys in
  creation order.
\<close>

type_synonym 'v js_object = "(string \<times> 'v) list"

definition is_array_index :: "string \<Rightarrow> bool" where
  "is_array_index s =
     ((s = ''0'' \<or> (case s of [] \<Rightarrow> False | c # _ \<Rightarrow> c \<noteq> CHR ''0''))
      \<and> list_all is_digit s \<and> digits_val s < 2 ^ 32 - 1)"

definition Object_entries :: "'v js_object \<Rightarrow> (string \<times> 'v) list" where
  "Object_entries obj =
     sort_key (\<lambda>p. digits_val (fst p)) (filter (\<lambda>p. is_array_index (fst p)) obj)
     @ filter (\<lambda>p. \<not> is_array_index (fst p)) obj"

definition Object_keys :: "'v js_object \<Rightarrow> string list" where
  "Object_keys obj = map fst (Object_entries obj)"

definition Object_fromEntries :: "(string \<times> 'v) list \<Rightarrow> 'v js_object" where
  "Object_fromEntries es = fold (\<lambda>(k, v) obj. AList.update k v obj) es []"

text \<open>
  The cell of a row in a column, as the table has it: the value of the row's own
  property, \<^verbatim>\<open>undefined\<close> when the row has none.
\<close>

definition own_prop :: "jsval js_object \<Rightarrow> string \<Rightarrow> jsval" where
  "own_prop obj k = (case map_of obj k of None \<Rightarrow> Undefined | Some v \<Rightarrow> v)"

text \<open>
  \<^verbatim>\<open>row[header]\<close>, as the code reads it: the value of the row's own property; when the
  row has none, the property that \<^verbatim>\<open>Object.prototype\<close> has under that name, and
  \<^verbatim>\<open>undefined\<close> when it has none either.
\<close>

definition get_prop :: "jsval js_object \<Rightarrow> string \<Rightarrow> jsval" where
  "get_prop obj k =
     (case map_of obj k of
        Some v \<Rightarrow> v
      | None \<Rightarrow> if List.member Object_prototype_names k then Inherited k else Undefined)"

text \<open>\<^verbatim>\<open>typeCounts[k] || 0\<close>: a missing count and a zero count both give zero.\<close>

definition count_or_zero :: "nat js_object \<Rightarrow> string \<Rightarrow> nat" where
  "count_or_zero typeCounts k = (case map_of typeCounts k of None \<Rightarrow> 0 | Some c \<Rightarrow> c)"

section \<open>The data dictionary generator\<close>

text \<open>\<^verbatim>\<open>chooseType\<close> of main.js: the loop over \<^verbatim>\<open>Object.entries(typeCounts)\<close>.\<close>

definition chooseType_step :: "string \<times> nat \<Rightarrow> nat \<times> string \<Rightarrow> nat \<times> string" where
  "chooseType_step entry acc =
     (case (entry, acc) of
        ((ty, cnt), (mx, selected)) \<Rightarrow>
          if cnt > mx then (cnt, ty) else (mx, selected))"

definition chooseType :: "nat js_object \<Rightarrow> string" where
  "chooseType typeCounts = snd (fold chooseType_step (Object_entries typeCounts) (0, ''text''))"

text \<open>The tally every column starts from.\<close>

definition initial_typeCounts :: "nat js_object" where
  "initial_typeCounts =
     [(''text'', 0), (''int'', 0), (''float'', 0), (''bool'', 0), (''datetime'', 0), (''date'', 0)]"

text \<open>\<^verbatim>\<open>typeCounts[k] = (typeCounts[k] || 0) + 1\<close>.\<close>

definition increment :: "nat js_object \<Rightarrow> string \<Rightarrow> nat js_object" where
  "increment typeCounts k = AList.update k (count_or_zero typeCounts k + 1) typeCounts"

text \<open>
  The body of \<^verbatim>\<open>data.forEach((row) => ...)\<close>: the state is the pair of \<^verbatim>\<open>typeCounts\<close> and
  \<^verbatim>\<open>example\<close>.
\<close>

definition scan_row ::
  "js_runtime \<Rightarrow> string \<Rightarrow> jsval js_object \<Rightarrow> nat js_object \<times> jsval \<Rightarrow> nat js_object \<times> jsval"
  where
  "scan_row rt header row st =
     (case st of
        (typeCounts, example) \<Rightarrow>
          (let value = get_prop row header;
               example' =
                 (if value \<noteq> Str '''' \<and> \<not> loose_eq_null value \<and> example = Null
                  then value else example);
               detectedType = detectType rt value
           in (increment typeCounts detectedType, example')))"

definition scan_column ::
  "js_runtime \<Rightarrow> string \<Rightarrow> jsval js_object list \<Rightarrow> nat js_object \<times> jsval" where
  "scan_column rt header data = fold (scan_row rt header) data (initial_typeCounts, Null)"

record dd_entry =
  column :: string
  type :: string
  example :: jsval
  description :: string

text \<open>What \<^verbatim>\<open>generateDataDictionary\<close> returns: the object \<^verbatim>\<open>{}\<close> or an array of entries.\<close>

datatype dictionary = Empty_object | Array "dd_entry list"

text \<open>The body of \<^verbatim>\<open>headers.forEach((header) => ...)\<close>: the entry pushed for one column.\<close>

definition column_entry :: "js_runtime \<Rightarrow> jsval js_object list \<Rightarrow> string \<Rightarrow> dd_entry" where
  "column_entry rt data header =
     (let scanned = scan_column rt header data;
          chosenType = chooseType (fst scanned)
      in \<lparr>column = header, type = chosenType, example = snd scanned, description = ''''\<rparr>)"

definition generateDataDictionary :: "js_runtime \<Rightarrow> jsval js_object list \<Rightarrow> dictionary" where
  "generateDataDictionary rt data =
     (case data of
        [] \<Rightarrow> Empty_object
      | row0 # _ \<Rightarrow> Array (map (column_entry rt data) (Object_keys row0)))"

section \<open>Schemas of the CKAN datastore\<close>

text \<open>A field of a datastore schema: \<^verbatim>\<open>{id, type, info?}\<close>.\<close>

record field =
  id_field :: string
  type_field :: string
  info_field :: "(string \<times> string) list option"

record datastore_create_payload =
  payload_resource_id :: string
  payload_fields :: "field list"
  payload_force :: bool

text \<open>
  \<^verbatim>\<open>setDataDictionary\<close> of ckan.js. The request goes through \<^verbatim>\<open>ckanCall\<close>, which is a
  parameter here: site, action, payload, key.
\<close>

definition setDataDictionary ::
  "(string \<Rightarrow> string \<Rightarrow> datastore_create_payload \<Rightarrow> string \<Rightarrow> 'r)
   \<Rightarrow> string \<Rightarrow> string \<Rightarrow> field list \<Rightarrow> string \<Rightarrow> 'r" where
  "setDataDictionary ckanCall site resId refFields key =
     (let fields =
        (if (case refFields of [] \<Rightarrow> False | f # _ \<Rightarrow> id_field f = ''_id'')
         then drop 1 refFields else refFields)
      in ckanCall site ''datastore_create''
           \<lparr>payload_resource_id = resId, payload_fields = fields, payload_force = True\<rparr> key)"

definition schemaDict :: "field list \<Rightarrow> string js_object" where
  "schemaDict schema = Object_fromEntries (map (\<lambda>f. (id_field f, type_field f)) schema)"

text \<open>\<^verbatim>\<open>Array.prototype.join()\<close> of an array of strings: the separator is a comma.\<close>

fun join :: "string list \<Rightarrow> string" where
  "join [] = ''''"
| "join [x] = x"
| "join (x # y # zs) = x @ '','' @ join (y # zs)"

record comparison =
  sameNames :: bool
  typeMismatches :: "string list"

text \<open>
  \<^verbatim>\<open>compareSchemas\<close> of ckan.js, from the two schemas that the awaited \<^verbatim>\<open>getSchema\<close>
  calls resolved to. \<^verbatim>\<open>sort()\<close> orders strings by their code units. In \<^verbatim>\<open>a[k] !== b[k]\<close> the
  name \<open>k\<close> is a key of \<open>a\<close>, so \<^verbatim>\<open>a[k]\<close> is a type; \<^verbatim>\<open>b[k]\<close> is a type when \<open>b\<close> has the key,
  and otherwise \<^verbatim>\<open>undefined\<close> or a property of \<^verbatim>\<open>Object.prototype\<close>, neither of which is
  equal to a type: the comparison of the two lookups decides the same.
\<close>

definition compareSchemas :: "field list \<Rightarrow> field list \<Rightarrow> comparison" where
  "compareSchemas src dst =
     (let a = schemaDict src;
          b = schemaDict dst
      in \<lparr>sameNames = (join (sort (Object_keys a)) = join (sort (Object_keys b))),
          typeMismatches = filter (\<lambda>k. map_of a k \<noteq> map_of b k) (Object_keys a)\<rparr>)"

section \<open>Runtimes for the examples\<close>

text \<open>
  Two hosts whose implementation parses no string outside the date-only form: one in
  UTC, one five hours behind UTC (Pittsburgh in January, the zone of the portal that
  index.html proposes). The text of a built-in function is
  \<^verbatim>\<open>function name() { [native code] }\<close>, and the function under \<^verbatim>\<open>constructor\<close> is \<^verbatim>\<open>Object\<close>.
\<close>

definition native_text :: "string \<Rightarrow> string" where
  "native_text k =
     '' '' @ (if k = ''constructor'' then ''Object'' else k) @ ''() { [native code] }''"

definition utc_runtime :: js_runtime where
  "utc_runtime =
     \<lparr>parse_other = (\<lambda>s. None), LocalTZA = (\<lambda>t. 0), function_text = native_text\<rparr>"

definition utc_minus5_runtime :: js_runtime where
  "utc_minus5_runtime =
     \<lparr>parse_other = (\<lambda>s. None), LocalTZA = (\<lambda>t. - 18000000), function_text = native_text\<rparr>"

section \<open>The scan of one column\<close>

lemma ToString_Str [simp]: "ToString rt (Str s) = s"
  by (simp add: ToString_def)

lemma fst_scan_row:
  "fst (scan_row rt h row st) = increment (fst st) (detectType rt (get_prop row h))"
  by (cases st) (simp add: scan_row_def Let_def)

lemma snd_scan_row:
  "snd (scan_row rt h row st) =
     (if get_prop row h \<noteq> Str '''' \<and> \<not> loose_eq_null (get_prop row h) \<and> snd st = Null
      then get_prop row h else snd st)"
  by (cases st) (simp add: scan_row_def Let_def)

lemma detectType_cases:
  "detectType rt v \<in> set [''text'', ''int'', ''float'', ''bool'', ''datetime'', ''date'']"
  by (simp add: detectType_def split: jsval.splits option.splits)

subsection \<open>The tally\<close>

lemma sum_increment:
  "sum_list (map snd (increment tc k)) = Suc (sum_list (map snd tc))"
  by (induction tc) (auto simp: increment_def count_or_zero_def)

lemma sum_fold_scan_row:
  "sum_list (map snd (fst (fold (scan_row rt h) data st))) =
     sum_list (map snd (fst st)) + length data"
  by (induction data arbitrary: st) (simp_all add: fst_scan_row sum_increment)

lemma keys_update_present:
  "k \<in> set (map fst tc) \<Longrightarrow> map fst (AList.update k c tc) = map fst tc"
  by (induction tc) auto

lemma keys_increment:
  "k \<in> set (map fst tc) \<Longrightarrow> map fst (increment tc k) = map fst tc"
  unfolding increment_def by (rule keys_update_present)

lemma keys_fold_scan_row:
  "map fst (fst st) = map fst initial_typeCounts \<Longrightarrow>
   map fst (fst (fold (scan_row rt h) data st)) = map fst initial_typeCounts"
proof (induction data arbitrary: st)
  case Nil
  then show ?case by simp
next
  case (Cons row data)
  have "detectType rt (get_prop row h) \<in> set (map fst (fst st))"
    using detectType_cases [of rt "get_prop row h"] Cons.prems
    by (simp add: initial_typeCounts_def)
  then have "map fst (fst (scan_row rt h row st)) = map fst initial_typeCounts"
    using Cons.prems by (simp add: fst_scan_row keys_increment)
  then show ?case using Cons.IH by simp
qed

text \<open>
  Claim C7. After the scan of a column, the tally still has exactly the six tags, in
  the order of their declaration, and its six counts add up to the number of rows of
  the table: every row, whatever its value, adds one to exactly one count.
\<close>

theorem tally_sums_to_rows:
  "map fst (fst (scan_column rt header data)) =
     [''text'', ''int'', ''float'', ''bool'', ''datetime'', ''date'']
   \<and> sum_list (map snd (fst (scan_column rt header data))) = length data"
proof
  show "map fst (fst (scan_column rt header data)) =
     [''text'', ''int'', ''float'', ''bool'', ''datetime'', ''date'']"
    using keys_fold_scan_row [of "(initial_typeCounts, Null)" rt header data]
    by (simp add: scan_column_def initial_typeCounts_def)
  show "sum_list (map snd (fst (scan_column rt header data))) = length data"
    by (simp add: scan_column_def sum_fold_scan_row initial_typeCounts_def)
qed

subsection \<open>The example value\<close>

lemma example_fold_scan_row:
  "snd (fold (scan_row rt h) data st) =
     (if snd st \<noteq> Null then snd st
      else (case List.find (\<lambda>v. v \<noteq> Str '''' \<and> \<not> loose_eq_null v)
                  (map (\<lambda>row. get_prop row h) data) of
              None \<Rightarrow> Null | Some v \<Rightarrow> v))"
proof (induction data arbitrary: st)
  case Nil
  then show ?case by simp
next
  case (Cons row data)
  show ?case
    by (simp add: Cons.IH snd_scan_row loose_eq_null_def)
qed

lemma example_column_entry:
  "example (column_entry rt data h) =
     (case List.find (\<lambda>v. v \<noteq> Str '''' \<and> \<not> loose_eq_null v)
            (map (\<lambda>row. get_prop row h) data) of
        None \<Rightarrow> Null | Some v \<Rightarrow> v)"
  by (simp add: column_entry_def Let_def scan_column_def example_fold_scan_row)

lemma example_kept:
  "example (column_entry rt data h) \<noteq> Null \<Longrightarrow>
   example (column_entry rt (data @ later) h) = example (column_entry rt data h)"
  by (simp add: column_entry_def Let_def scan_column_def example_fold_scan_row)

lemma column_column_entry: "column (column_entry rt data h) = h"
  by (simp add: column_entry_def Let_def)

lemma generateDataDictionary_Array:
  "generateDataDictionary rt data = Array es \<Longrightarrow>
   \<exists>row0 rows. data = row0 # rows \<and> es = map (column_entry rt data) (Object_keys row0)"
  by (cases data) (simp_all add: generateDataDictionary_def)

text \<open>
  In the entry of every column of the dictionary, the example is the first value
  that the code reads from the column, in row order, that is neither the empty
  string nor \<^verbatim>\<open>null\<close>/\<^verbatim>\<open>undefined\<close>, and it is \<^verbatim>\<open>null\<close> when the code reads no such value.
  Once an example is set, rows that come later leave it as it is: the dictionary of
  the table extended by further rows has the same example for that column.
\<close>

lemma example_is_first_value_read:
  assumes "generateDataDictionary rt data = Array es" and "e \<in> set es"
  shows "example e =
           (case List.find (\<lambda>v. v \<noteq> Str '''' \<and> \<not> loose_eq_null v)
                  (map (\<lambda>row. get_prop row (column e)) data) of
              None \<Rightarrow> Null | Some v \<Rightarrow> v)
         \<and> (\<forall>later es' e'. example e \<noteq> Null
               \<and> generateDataDictionary rt (data @ later) = Array es'
               \<and> e' \<in> set es' \<and> column e' = column e
              \<longrightarrow> example e' = example e)"
proof -
  from assms obtain row0 rows h where
    data: "data = row0 # rows" and e: "e = column_entry rt data h"
    using generateDataDictionary_Array [of rt data es] by auto
  have first: "example e =
           (case List.find (\<lambda>v. v \<noteq> Str '''' \<and> \<not> loose_eq_null v)
                  (map (\<lambda>row. get_prop row (column e)) data) of
              None \<Rightarrow> Null | Some v \<Rightarrow> v)"
    unfolding e column_column_entry by (rule example_column_entry)
  have kept: "example e' = example e"
    if set: "example e \<noteq> Null"
      and gen: "generateDataDictionary rt (data @ later) = Array es'"
      and mem: "e' \<in> set es'" and col: "column e' = column e"
    for later es' e'
  proof -
    from gen mem obtain h' where e': "e' = column_entry rt (data @ later) h'"
      using generateDataDictionary_Array [of rt "data @ later" es'] by auto
    from col have "h' = h"
      unfolding e e' column_column_entry .
    then show ?thesis
      using set example_kept [of rt data h later] unfolding e e' by simp
  qed
  from first kept show ?thesis by blast
qed

text \<open>
  What the code reads is the cell of the table when the row has the key, and when the
  column is not named like a property of \<^verbatim>\<open>Object.prototype\<close>. For such a column the
  example is the first cell, in row order, that is neither the empty string nor
  \<^verbatim>\<open>null\<close> nor absent, and \<^verbatim>\<open>null\<close> when there is none.
\<close>

lemma get_prop_own:
  "\<not> List.member Object_prototype_names h \<or> map_of row h \<noteq> None \<Longrightarrow>
   get_prop row h = own_prop row h"
  by (auto simp: get_prop_def own_prop_def)

lemma example_is_first_nonempty_cell:
  assumes "generateDataDictionary rt data = Array es" and "e \<in> set es"
    and "\<not> List.member Object_prototype_names (column e)
         \<or> (\<forall>row\<in>set data. map_of row (column e) \<noteq> None)"
  shows "example e =
           (case List.find (\<lambda>v. v \<noteq> Str '''' \<and> \<not> loose_eq_null v)
                  (map (\<lambda>row. own_prop row (column e)) data) of
              None \<Rightarrow> Null | Some v \<Rightarrow> v)"
proof -
  have eq: "map (\<lambda>row. get_prop row (column e)) data = map (\<lambda>row. own_prop row (column e)) data"
    using assms(3) by (intro map_cong refl get_prop_own) auto
  from example_is_first_value_read [OF assms(1,2)] show ?thesis
    unfolding eq by (rule conjunct1)
qed

text \<open>
  Claim C4. The table of the rows \<^verbatim>\<open>{id: "1", constructor: ""}\<close> and \<^verbatim>\<open>{id: "2"}\<close>, which the
  parser builds from a file with the header \<^verbatim>\<open>id,constructor\<close> and a short second line,
  has no cell in the column \<^verbatim>\<open>constructor\<close> that is neither the empty string nor
  \<^verbatim>\<open>null\<close> nor absent, so its example is \<^verbatim>\<open>null\<close> by the claim. The second row lacks the
  key, \<^verbatim>\<open>row[header]\<close> reads the function that \<^verbatim>\<open>Object.prototype\<close> has under
  \<^verbatim>\<open>constructor\<close>, and the code stores that function as the example, on every host.
\<close>

theorem example_reads_inherited_property:
  "example (column_entry rt
      [[(''id'', Str ''1''), (''constructor'', Str '''')], [(''id'', Str ''2'')]] ''constructor'')
     = Inherited ''constructor''
   \<and> generateDataDictionary utc_runtime
       [[(''id'', Str ''1''), (''constructor'', Str '''')], [(''id'', Str ''2'')]]
     = Array [\<lparr>column = ''id'', type = ''int'', example = Str ''1'', description = ''''\<rparr>,
              \<lparr>column = ''constructor'', type = ''text'',
               example = Inherited ''constructor'', description = ''''\<rparr>]
   \<and> List.find (\<lambda>v. v \<noteq> Str '''' \<and> \<not> loose_eq_null v)
         (map (\<lambda>row. own_prop row ''constructor'')
            [[(''id'', Str ''1''), (''constructor'', Str '''')], [(''id'', Str ''2'')]])
     = None"
proof (intro conjI)
  show "example (column_entry rt
      [[(''id'', Str ''1''), (''constructor'', Str '''')], [(''id'', Str ''2'')]] ''constructor'')
     = Inherited ''constructor''"
    by (simp add: example_column_entry get_prop_def Object_prototype_names_def
        loose_eq_null_def)
  show "generateDataDictionary utc_runtime
       [[(''id'', Str ''1''), (''constructor'', Str '''')], [(''id'', Str ''2'')]]
     = Array [\<lparr>column = ''id'', type = ''int'', example = Str ''1'', description = ''''\<rparr>,
              \<lparr>column = ''constructor'', type = ''text'',
               example = Inherited ''constructor'', description = ''''\<rparr>]"
    by code_simp
  show "List.find (\<lambda>v. v \<noteq> Str '''' \<and> \<not> loose_eq_null v)
         (map (\<lambda>row. own_prop row ''constructor'')
            [[(''id'', Str ''1''), (''constructor'', Str '''')], [(''id'', Str ''2'')]])
     = None"
    by (simp add: own_prop_def loose_eq_null_def)
qed

text \<open>
  Claim C2. For the table with no rows the generator returns at once, without any
  error, but what it returns is the object \<^verbatim>\<open>{}\<close>, not an array: the empty sequence of
  entries that the claim expects is the value of the other path, taken by a table
  whose rows have no column.
\<close>

theorem empty_table_gives_object:
  "generateDataDictionary rt [] = Empty_object
   \<and> generateDataDictionary rt [] \<noteq> Array []
   \<and> generateDataDictionary rt [[]] = Array []"
  by (simp add: generateDataDictionary_def Object_keys_def Object_entries_def)

section \<open>The type resolver\<close>

lemma fold_chooseType_step_le:
  "\<forall>p\<in>set es. snd p \<le> m \<Longrightarrow> fold chooseType_step es (m, s) = (m, s)"
  by (induction es) (auto simp: chooseType_step_def)

lemma fold_chooseType_step_below:
  "\<forall>p\<in>set es. snd p < c \<Longrightarrow> m < c \<Longrightarrow> fst (fold chooseType_step es (m, s)) < c"
  by (induction es arbitrary: m s) (auto simp: chooseType_step_def)

lemma fold_chooseType_step_first_max:
  assumes "\<forall>p\<in>set pre. snd p < c" and "m < c" and "\<forall>p\<in>set post. snd p \<le> c"
  shows "fold chooseType_step (pre @ (k, c) # post) (m, s) = (c, k)"
proof -
  obtain m1 s1 where pre: "fold chooseType_step pre (m, s) = (m1, s1)"
    by (cases "fold chooseType_step pre (m, s)")
  with fold_chooseType_step_below [OF assms(1,2), of s] have "m1 < c" by simp
  then have "chooseType_step (k, c) (m1, s1) = (c, k)"
    by (simp add: chooseType_step_def)
  then show ?thesis
    using pre fold_chooseType_step_le [OF assms(3), of k] by simp
qed

lemma Object_entries_no_index:
  "\<forall>p\<in>set obj. \<not> is_array_index (fst p) \<Longrightarrow> Object_entries obj = obj"
  by (simp add: Object_entries_def filter_id_conv filter_empty_conv)

lemma tags_not_array_index:
  "k \<in> set [''text'', ''int'', ''float'', ''bool'', ''datetime'', ''date''] \<Longrightarrow> \<not> is_array_index k"
  by (auto simp: is_array_index_def is_digit_def)

lemma Object_entries_tally:
  assumes "map fst tc = [''text'', ''int'', ''float'', ''bool'', ''datetime'', ''date'']"
  shows "Object_entries tc = tc"
proof (rule Object_entries_no_index, rule ballI)
  fix p assume "p \<in> set tc"
  then have "fst p \<in> set (map fst tc)" by simp
  then show "\<not> is_array_index (fst p)"
    unfolding assms by (rule tags_not_array_index)
qed

text \<open>
  Claim C5. The resolver starts from the maximum zero and the selection \<^verbatim>\<open>text\<close>, goes
  through the tags in the order text, int, float, bool, datetime, date and replaces the
  selection only by a tag whose count is strictly greater than the running maximum.
  So a tally whose six counts are all equal, zero or not, resolves to \<^verbatim>\<open>text\<close>; and in
  general the first tag in that order whose count is positive, above every earlier
  count and not below any later one is the one selected.
\<close>

theorem chooseType_first_strict_maximum:
  assumes keys: "map fst tc = [''text'', ''int'', ''float'', ''bool'', ''datetime'', ''date'']"
  shows "((\<forall>p\<in>set tc. snd p = c) \<longrightarrow> chooseType tc = ''text'')
       \<and> (\<forall>pre k n post. tc = pre @ (k, n) # post \<and> 0 < n
             \<and> (\<forall>p\<in>set pre. snd p < n) \<and> (\<forall>p\<in>set post. snd p \<le> n)
            \<longrightarrow> chooseType tc = k)"
proof (intro conjI impI allI)
  fix pre k n post
  assume h: "tc = pre @ (k, n) # post \<and> 0 < n
             \<and> (\<forall>p\<in>set pre. snd p < n) \<and> (\<forall>p\<in>set post. snd p \<le> n)"
  then have "fold chooseType_step tc (0, ''text'') = (n, k)"
    using fold_chooseType_step_first_max [of pre n 0 post k "''text''"] by simp
  then show "chooseType tc = k"
    unfolding chooseType_def Object_entries_tally [OF keys] by simp
next
  assume eq: "\<forall>p\<in>set tc. snd p = c"
  from keys obtain v rest where tc: "tc = (''text'', v) # rest"
    by (cases tc) auto
  show "chooseType tc = ''text''"
  proof (cases "c = 0")
    case True
    with eq have "\<forall>p\<in>set tc. snd p \<le> 0" by simp
    then show ?thesis
      by (simp add: chooseType_def Object_entries_tally [OF keys] fold_chooseType_step_le)
  next
    case False
    from tc eq have v: "v = c" and rest: "\<forall>p\<in>set rest. snd p \<le> c"
      by auto
    have "fold chooseType_step ([] @ (''text'', c) # rest) (0, ''text'') = (c, ''text'')"
      using False rest by (intro fold_chooseType_step_first_max) auto
    then have "fold chooseType_step tc (0, ''text'') = (c, ''text'')"
      unfolding tc v by simp
    then show ?thesis
      unfolding chooseType_def Object_entries_tally [OF keys] by simp
  qed
qed

theorem chooseType_witness:
  "chooseType [(''text'', 2), (''int'', 2), (''float'', 2), (''bool'', 2), (''datetime'', 2), (''date'', 2)] = ''text''
   \<and> chooseType [(''text'', 1), (''int'', 3), (''float'', 0), (''bool'', 3), (''datetime'', 0), (''date'', 2)] = ''int''"
proof -
  let ?a = "[(''text'', 2), (''int'', 2), (''float'', 2), (''bool'', 2), (''datetime'', 2), (''date'', 2::nat)]"
  let ?b = "[(''text'', 1), (''int'', 3), (''float'', 0), (''bool'', 3), (''datetime'', 0), (''date'', 2::nat)]"
  have 1: "chooseType ?a = ''text''"
    using chooseType_first_strict_maximum [of ?a 2] by simp
  have 2: "chooseType ?b = ''int''"
    using chooseType_first_strict_maximum [of ?b 0, THEN conjunct2, rule_format,
        of "[(''text'', 1)]" "''int''" 3 "[(''float'', 0), (''bool'', 3), (''datetime'', 0), (''date'', 2)]"]
    by simp
  from 1 2 show ?thesis by simp
qed

subsection \<open>The tally depends on the values only through their tags\<close>

lemma increment_present:
  "distinct (map fst tc) \<Longrightarrow> k \<in> set (map fst tc) \<Longrightarrow>
   increment tc k = map (\<lambda>p. (fst p, if fst p = k then Suc (snd p) else snd p)) tc"
proof (induction tc)
  case Nil
  then show ?case by simp
next
  case (Cons q tc)
  show ?case
  proof (cases "fst q = k")
    case True
    then have "k \<notin> set (map fst tc)" using Cons.prems(1) by auto
    then have "map (\<lambda>p. (fst p, if fst p = k then Suc (snd p) else snd p)) tc = tc"
      by (induction tc) auto
    then show ?thesis using True
      by (simp add: increment_def count_or_zero_def)
  next
    case False
    then have "increment (q # tc) k = q # increment tc k"
      by (cases q) (simp add: increment_def count_or_zero_def)
    then show ?thesis using False Cons by auto
  qed
qed

lemma fold_increment:
  "distinct (map fst tc) \<Longrightarrow> set ks \<subseteq> set (map fst tc) \<Longrightarrow>
   fold (\<lambda>k tc. increment tc k) ks tc = map (\<lambda>p. (fst p, snd p + count_list ks (fst p))) tc"
proof (induction ks arbitrary: tc)
  case Nil
  then show ?case by simp
next
  case (Cons k ks)
  let ?tc = "map (\<lambda>p. (fst p, if fst p = k then Suc (snd p) else snd p)) tc"
  have inc: "increment tc k = ?tc"
    using Cons.prems by (simp add: increment_present)
  have keys: "map fst ?tc = map fst tc" by (simp add: comp_def)
  have "fold (\<lambda>k tc. increment tc k) ks ?tc = map (\<lambda>p. (fst p, snd p + count_list ks (fst p))) ?tc"
    using Cons.prems by (intro Cons.IH) (simp_all only: keys, simp_all)
  then show ?case
    by (simp add: inc comp_def)
qed

lemma fst_fold_scan_row:
  "fst (fold (scan_row rt h) data st) =
     fold (\<lambda>k tc. increment tc k) (map (\<lambda>row. detectType rt (get_prop row h)) data) (fst st)"
  by (induction data arbitrary: st) (simp_all add: fst_scan_row)

lemma tally_counts:
  "fst (scan_column rt h data) =
     map (\<lambda>p. (fst p, count_list (map (\<lambda>row. detectType rt (get_prop row h)) data) (fst p)))
       initial_typeCounts"
proof -
  have sub: "set (map (\<lambda>row. detectType rt (get_prop row h)) data) \<subseteq> set (map fst initial_typeCounts)"
    using detectType_cases [of rt] by (auto simp: initial_typeCounts_def)
  have dist: "distinct (map fst initial_typeCounts)"
    by (simp add: initial_typeCounts_def)
  have "\<forall>p\<in>set initial_typeCounts. snd p = 0"
    by (simp add: initial_typeCounts_def)
  then have "map (\<lambda>p. (fst p, snd p + count_list ks (fst p))) initial_typeCounts
      = map (\<lambda>p. (fst p, count_list ks (fst p))) initial_typeCounts" for ks
    by simp
  then show ?thesis
    by (simp add: scan_column_def fst_fold_scan_row fold_increment [OF dist sub])
qed

lemma tally_permutation:
  assumes "mset data' = mset data"
  shows "fst (scan_column rt h data') = fst (scan_column rt h data)"
proof -
  let ?tag = "\<lambda>row. detectType rt (get_prop row h)"
  have "mset (map ?tag data') = mset (map ?tag data)"
    using assms by (metis mset_map)
  then have "count_list (map ?tag data') k = count_list (map ?tag data) k" for k
    by (metis count_mset)
  then show ?thesis by (simp add: tally_counts)
qed

lemma count_list_replicate:
  "count_list (replicate n x) y = (if x = y then n else 0)"
  by (induction n) auto

lemma chooseType_single_tag:
  assumes "t \<in> set [''text'', ''int'', ''float'', ''bool'', ''datetime'', ''date'']" and "0 < n"
  shows "chooseType (map (\<lambda>p. (fst p, count_list (replicate n t) (fst p))) initial_typeCounts) = t"
  using assms
  by (auto simp: chooseType_def initial_typeCounts_def count_list_replicate chooseType_step_def
      Object_entries_def is_array_index_def is_digit_def)

text \<open>
  Claim C8. When all the values of a column classify to the same tag, the resolved type
  of the column is the same for every permutation of the rows; on a table with at
  least one row it is that tag.
\<close>

theorem resolved_type_permutation_stable:
  assumes "mset data' = mset data"
    and "\<forall>row\<in>set data. detectType rt (get_prop row header) = t"
  shows "type (column_entry rt data' header) = type (column_entry rt data header)
       \<and> (data \<noteq> [] \<longrightarrow> type (column_entry rt data header) = t)"
proof
  show "type (column_entry rt data' header) = type (column_entry rt data header)"
    using tally_permutation [OF assms(1), of rt header]
    by (simp add: column_entry_def Let_def)
  show "data \<noteq> [] \<longrightarrow> type (column_entry rt data header) = t"
  proof
    assume ne: "data \<noteq> []"
    then obtain row where "row \<in> set data" by (cases data) auto
    with assms(2) detectType_cases [of rt "get_prop row header"]
    have t: "t \<in> set [''text'', ''int'', ''float'', ''bool'', ''datetime'', ''date'']" by auto
    have "map (\<lambda>row. detectType rt (get_prop row header)) data = replicate (length data) t"
      using assms(2) by (simp add: map_replicate_const [symmetric] cong: map_cong)
    then show "type (column_entry rt data header) = t"
      using chooseType_single_tag [OF t, of "length data"] ne
      by (simp add: column_entry_def Let_def tally_counts)
  qed
qed

theorem resolved_type_permutation_stable_witness:
  "type (column_entry utc_runtime [[(''n'', Str ''7'')], [(''n'', Str ''12'')], [(''n'', Str ''-3'')]] ''n'')
     = type (column_entry utc_runtime [[(''n'', Str ''12'')], [(''n'', Str ''-3'')], [(''n'', Str ''7'')]] ''n'')
   \<and> type (column_entry utc_runtime [[(''n'', Str ''12'')], [(''n'', Str ''-3'')], [(''n'', Str ''7'')]] ''n'') = ''int''"
proof -
  let ?d = "[[(''n'', Str ''12'')], [(''n'', Str ''-3'')], [(''n'', Str ''7'')]]"
  let ?d' = "[[(''n'', Str ''7'')], [(''n'', Str ''12'')], [(''n'', Str ''-3'')]]"
  have p: "mset ?d' = mset ?d" by (simp add: add_mset_commute)
  have h: "\<forall>row\<in>set ?d. detectType utc_runtime (get_prop row ''n'') = ''int''"
    by code_simp
  from resolved_type_permutation_stable [OF p h] show ?thesis by simp
qed

section \<open>Sending a data dictionary\<close>

text \<open>
  Claim C9. The request is a \<^verbatim>\<open>datastore_create\<close> call whose field list is the given list
  without its first field when that field's id is \<^verbatim>\<open>_id\<close>, and the given list itself
  otherwise (the empty list included); every field after the first is sent, whatever
  its id. The field list sent is read off with a \<^verbatim>\<open>ckanCall\<close> that returns it.
\<close>

theorem setDataDictionary_strips_leading_id:
  "setDataDictionary ckanCall site resId refFields key =
     ckanCall site ''datastore_create''
       \<lparr>payload_resource_id = resId,
        payload_fields = setDataDictionary (\<lambda>s a p k. payload_fields p) site resId refFields key,
        payload_force = True\<rparr> key
   \<and> (\<forall>f rest. refFields = f # rest \<and> id_field f = ''_id'' \<longrightarrow>
         setDataDictionary (\<lambda>s a p k. payload_fields p) site resId refFields key = rest)
   \<and> (\<not> (\<exists>f rest. refFields = f # rest \<and> id_field f = ''_id'') \<longrightarrow>
         setDataDictionary (\<lambda>s a p k. payload_fields p) site resId refFields key = refFields)
   \<and> (\<forall>i. 0 < i \<and> i < length refFields \<longrightarrow>
         refFields ! i \<in> set (setDataDictionary (\<lambda>s a p k. payload_fields p) site resId refFields key))"
  by (cases refFields) (auto simp: setDataDictionary_def Let_def nth_Cons split: nat.splits)

theorem setDataDictionary_witness:
  "setDataDictionary (\<lambda>s a p k. payload_fields p) ''https://data.wprdc.org'' ''r1''
     [\<lparr>id_field = ''_id'', type_field = ''int'', info_field = None\<rparr>,
      \<lparr>id_field = ''name'', type_field = ''text'', info_field = None\<rparr>,
      \<lparr>id_field = ''_id'', type_field = ''text'', info_field = None\<rparr>] ''''
   = [\<lparr>id_field = ''name'', type_field = ''text'', info_field = None\<rparr>,
      \<lparr>id_field = ''_id'', type_field = ''text'', info_field = None\<rparr>]
   \<and> setDataDictionary (\<lambda>s a p k. payload_fields p) ''https://data.wprdc.org'' ''r1''
     [\<lparr>id_field = ''name'', type_field = ''text'', info_field = None\<rparr>,
      \<lparr>id_field = ''_id'', type_field = ''text'', info_field = None\<rparr>] ''''
   = [\<lparr>id_field = ''name'', type_field = ''text'', info_field = None\<rparr>,
      \<lparr>id_field = ''_id'', type_field = ''text'', info_field = None\<rparr>]"
proof -
  have 1: "setDataDictionary (\<lambda>s a p k. payload_fields p) ''https://data.wprdc.org'' ''r1''
     [\<lparr>id_field = ''_id'', type_field = ''int'', info_field = None\<rparr>,
      \<lparr>id_field = ''name'', type_field = ''text'', info_field = None\<rparr>,
      \<lparr>id_field = ''_id'', type_field = ''text'', info_field = None\<rparr>] ''''
   = [\<lparr>id_field = ''name'', type_field = ''text'', info_field = None\<rparr>,
      \<lparr>id_field = ''_id'', type_field = ''text'', info_field = None\<rparr>]"
    using setDataDictionary_strips_leading_id
      [where ckanCall = "\<lambda>s a p k. payload_fields p" and site = "''https://data.wprdc.org''"
         and resId = "''r1''" and key = "''''"
         and refFields = "[\<lparr>id_field = ''_id'', type_field = ''int'', info_field = None\<rparr>,
      \<lparr>id_field = ''name'', type_field = ''text'', info_field = None\<rparr>,
      \<lparr>id_field = ''_id'', type_field = ''text'', info_field = None\<rparr>]"]
    by simp
  have 2: "setDataDictionary (\<lambda>s a p k. payload_fields p) ''https://data.wprdc.org'' ''r1''
     [\<lparr>id_field = ''name'', type_field = ''text'', info_field = None\<rparr>,
      \<lparr>id_field = ''_id'', type_field = ''text'', info_field = None\<rparr>] ''''
   = [\<lparr>id_field = ''name'', type_field = ''text'', info_field = None\<rparr>,
      \<lparr>id_field = ''_id'', type_field = ''text'', info_field = None\<rparr>]"
    using setDataDictionary_strips_leading_id
      [where ckanCall = "\<lambda>s a p k. payload_fields p" and site = "''https://data.wprdc.org''"
         and resId = "''r1''" and key = "''''"
         and refFields = "[\<lparr>id_field = ''name'', type_field = ''text'', info_field = None\<rparr>,
      \<lparr>id_field = ''_id'', type_field = ''text'', info_field = None\<rparr>]"]
    by simp
  from 1 2 show ?thesis by simp
qed

section \<open>The patterns of the classifier\<close>

text \<open>The matcher accepts exactly the language of the pattern.\<close>

lemma conc_Nil: "[] \<in> conc A B \<longleftrightarrow> [] \<in> A \<and> [] \<in> B"
  by (simp add: conc_def)

lemma nullable_lang: "nullable r \<longleftrightarrow> [] \<in> lang r"
  by (induction r) (simp_all add: conc_Nil star_nil)

lemma conc_Cons:
  "a # w \<in> conc A B \<longleftrightarrow>
     ([] \<in> A \<and> a # w \<in> B) \<or> (\<exists>u v. w = u @ v \<and> a # u \<in> A \<and> v \<in> B)"
proof
  assume "a # w \<in> conc A B"
  then obtain u v where uv: "a # w = u @ v" "u \<in> A" "v \<in> B"
    unfolding conc_def by blast
  show "([] \<in> A \<and> a # w \<in> B) \<or> (\<exists>u v. w = u @ v \<and> a # u \<in> A \<and> v \<in> B)"
  proof (cases u)
    case Nil
    with uv show ?thesis by simp
  next
    case (Cons b u')
    with uv have "b = a" "w = u' @ v" by simp_all
    with Cons uv show ?thesis by blast
  qed
next
  assume "([] \<in> A \<and> a # w \<in> B) \<or> (\<exists>u v. w = u @ v \<and> a # u \<in> A \<and> v \<in> B)"
  then show "a # w \<in> conc A B"
  proof
    assume "[] \<in> A \<and> a # w \<in> B"
    then have "[] @ (a # w) \<in> conc A B"
      unfolding conc_def by blast
    then show ?thesis by simp
  next
    assume "\<exists>u v. w = u @ v \<and> a # u \<in> A \<and> v \<in> B"
    then obtain u v where "w = u @ v" "a # u \<in> A" "v \<in> B" by blast
    then have "(a # u) @ v \<in> conc A B" and "a # w = (a # u) @ v"
      unfolding conc_def by (blast, simp)
    then show ?thesis by simp
  qed
qed

lemma conc_left_quotient:
  "w \<in> conc {u. a # u \<in> A} B \<longleftrightarrow> (\<exists>u v. w = u @ v \<and> a # u \<in> A \<and> v \<in> B)"
  unfolding conc_def by blast

lemma star_Cons_D:
  "x \<in> star A \<Longrightarrow> x = a # w \<Longrightarrow> \<exists>u v. w = u @ v \<and> a # u \<in> A \<and> v \<in> star A"
proof (induction arbitrary: w rule: star.induct)
  case star_nil
  then show ?case by simp
next
  case (star_app u v)
  show ?case
  proof (cases u)
    case Nil
    with star_app show ?thesis by simp
  next
    case (Cons b u')
    with star_app.prems have "b = a" "w = u' @ v" by simp_all
    with Cons star_app.hyps show ?thesis by blast
  qed
qed

lemma star_Cons:
  "a # w \<in> star A \<longleftrightarrow> (\<exists>u v. w = u @ v \<and> a # u \<in> A \<and> v \<in> star A)"
proof
  assume "a # w \<in> star A"
  then show "\<exists>u v. w = u @ v \<and> a # u \<in> A \<and> v \<in> star A"
    by (rule star_Cons_D) simp
next
  assume "\<exists>u v. w = u @ v \<and> a # u \<in> A \<and> v \<in> star A"
  then obtain u v where "w = u @ v" "a # u \<in> A" "v \<in> star A" by blast
  then show "a # w \<in> star A"
    using star_app [of "a # u" A v] by simp
qed

lemma lang_deriv: "w \<in> lang (deriv a r) \<longleftrightarrow> a # w \<in> lang r"
proof (induction r arbitrary: w)
  case Zero
  show ?case by simp
next
  case One
  show ?case by simp
next
  case (Chr c)
  show ?case by simp
next
  case Digit
  show ?case by simp
next
  case (Alt r s)
  then show ?case by simp
next
  case (Seq r s)
  have q: "lang (deriv a r) = {u. a # u \<in> lang r}"
    using Seq.IH(1) by blast
  show ?case
    by (simp add: q conc_left_quotient conc_Cons [of a w] nullable_lang Seq.IH(2)) blast
next
  case (Star r)
  have q: "lang (deriv a r) = {u. a # u \<in> lang r}"
    using Star.IH by blast
  show ?case
    by (simp add: q conc_left_quotient star_Cons [of a w])
qed

lemma regex_test_lang: "regex_test r s \<longleftrightarrow> s \<in> lang r"
  unfolding regex_test_def
  by (induction s arbitrary: r) (simp_all add: nullable_lang lang_deriv)

lemma star_digits: "w \<in> star {[c] | c. is_digit c} \<longleftrightarrow> list_all is_digit w"
proof
  assume "w \<in> star {[c] | c. is_digit c}"
  then show "list_all is_digit w"
    by (induction rule: star.induct) auto
next
  assume "list_all is_digit w"
  then show "w \<in> star {[c] | c. is_digit c}"
  proof (induction w)
    case Nil
    show ?case by (rule star_nil)
  next
    case (Cons c w)
    then have "[c] @ w \<in> star {[c] | c. is_digit c}"
      by (intro star_app) auto
    then show ?case by simp
  qed
qed

lemma plus_digits:
  "w \<in> lang (Plus Digit) \<longleftrightarrow> w \<noteq> [] \<and> list_all is_digit w"
proof (cases w)
  case Nil
  then show ?thesis by (simp add: Plus_def conc_def)
next
  case (Cons c cs)
  have "c # cs \<in> conc {[c] | c. is_digit c} (star {[c] | c. is_digit c}) \<longleftrightarrow>
        is_digit c \<and> list_all is_digit cs"
    by (simp add: conc_Cons star_digits)
  then show ?thesis
    using Cons by (simp add: Plus_def)
qed

lemma conc_opt_minus:
  "s \<in> conc {''-'', []} L \<longleftrightarrow> s \<in> L \<or> (\<exists>v. s = CHR ''-'' # v \<and> v \<in> L)"
proof
  assume "s \<in> conc {''-'', []} L"
  then obtain u v where "s = u @ v" "u = ''-'' \<or> u = []" "v \<in> L"
    unfolding conc_def by blast
  then show "s \<in> L \<or> (\<exists>v. s = CHR ''-'' # v \<and> v \<in> L)" by auto
next
  assume "s \<in> L \<or> (\<exists>v. s = CHR ''-'' # v \<and> v \<in> L)"
  then show "s \<in> conc {''-'', []} L"
  proof
    assume "s \<in> L"
    then have "[] @ s \<in> conc {''-'', []} L"
      unfolding conc_def by blast
    then show ?thesis by simp
  next
    assume "\<exists>v. s = CHR ''-'' # v \<and> v \<in> L"
    then obtain v where v: "s = CHR ''-'' # v" "v \<in> L" by blast
    then have "''-'' @ v \<in> conc {''-'', []} L"
      unfolding conc_def by blast
    with v show ?thesis by simp
  qed
qed

lemma int_re_iff:
  "regex_test int_re s \<longleftrightarrow>
     (\<exists>ds. ds \<noteq> [] \<and> list_all is_digit ds \<and> (s = ds \<or> s = CHR ''-'' # ds))"
proof -
  have "s \<in> lang int_re \<longleftrightarrow> s \<in> conc {''-'', []} (lang (Plus Digit))"
    by (simp add: int_re_def Opt_def insert_commute)
  then show ?thesis
    unfolding regex_test_lang conc_opt_minus plus_digits by blast
qed

subsection \<open>Digit strings\<close>

lemma trim_empty_iff: "trim s = [] \<longleftrightarrow> list_all is_white_space s"
proof
  assume "list_all is_white_space s"
  then show "trim s = []"
    by (auto simp: trim_def list_all_iff dest: set_dropWhileD)
next
  assume t: "trim s = []"
  show "list_all is_white_space s"
  proof (cases "dropWhile is_white_space s")
    case Nil
    then show ?thesis by (simp add: dropWhile_eq_Nil_conv list_all_iff)
  next
    case (Cons c cs)
    then have "\<not> is_white_space c"
      using hd_dropWhile [of is_white_space s] by simp
    moreover from t Cons have "is_white_space c"
      by (simp add: trim_def dropWhile_eq_Nil_conv)
    ultimately show ?thesis by simp
  qed
qed

text \<open>
  Claim C1. A value that matches \<^verbatim>\<open>/^-?\d+$/\<close> is classified \<^verbatim>\<open>bool\<close> when it is the
  string \<^verbatim>\<open>0\<close> or the string \<^verbatim>\<open>1\<close>, and \<^verbatim>\<open>int\<close> otherwise: it passes the rule of the
  empty and NA-like values, and the literals of the boolean rule come before the
  integer pattern.
\<close>

theorem digit_strings_bool_or_int:
  assumes "regex_test int_re s"
  shows "detectType rt (Str s) = (if s = ''0'' \<or> s = ''1'' then ''bool'' else ''int'')"
proof -
  from assms obtain ds where ds: "ds \<noteq> []" "list_all is_digit ds" "s = ds \<or> s = CHR ''-'' # ds"
    unfolding int_re_iff by blast
  then obtain c cs where s: "s = c # cs" and c: "is_digit c \<or> c = CHR ''-''"
    by (cases ds) auto
  from c have nws: "\<not> is_white_space c"
    by (auto simp: is_digit_def is_white_space_def)
  have trim: "trim s \<noteq> []"
    using s nws by (simp add: trim_empty_iff)
  have notNA: "s \<noteq> ''NA''" "s \<noteq> ''NULL''" "s \<noteq> ''true''" "s \<noteq> ''false''"
    "s \<noteq> ''True''" "s \<noteq> ''False''"
    using s c by (auto simp: is_digit_def)
  show ?thesis
    using assms trim notNA s
    by (auto simp: detectType_def loose_eq_null_def array_includes_def)
qed

theorem digit_strings_witness:
  "regex_test int_re ''1'' \<and> detectType utc_runtime (Str ''1'') = ''bool''
   \<and> regex_test int_re ''-42'' \<and> detectType utc_runtime (Str ''-42'') = ''int''"
proof -
  have 1: "regex_test int_re ''1''" by code_simp
  have 2: "regex_test int_re ''-42''" by code_simp
  from digit_strings_bool_or_int [OF 1, of utc_runtime] digit_strings_bool_or_int [OF 2, of utc_runtime] 1 2
  show ?thesis by simp
qed

subsection \<open>Empty and NA-like values\<close>

lemma detectType_na_like:
  "s = ''NA'' \<or> s = ''NULL'' \<or> s = '''' \<or> list_all is_white_space s \<Longrightarrow>
   detectType rt (Str s) = ''text''"
  by (auto simp: detectType_def trim_empty_iff)

lemma detectType_nullish: "loose_eq_null v \<Longrightarrow> detectType rt v = ''text''"
  by (simp add: detectType_def)

lemma find_after_skipped:
  "\<forall>x\<in>set pre. \<not> P x \<Longrightarrow> P y \<Longrightarrow> List.find P (pre @ y # post) = Some y"
  by (induction pre) auto

lemma find_Some_holds: "List.find P xs = Some x \<Longrightarrow> P x"
  by (induction xs) (auto split: if_splits)

lemma example_never_empty:
  "example (column_entry rt data h) \<noteq> Str '''' \<and> example (column_entry rt data h) \<noteq> Undefined"
proof (cases "List.find (\<lambda>v. v \<noteq> Str '''' \<and> \<not> loose_eq_null v) (map (\<lambda>row. get_prop row h) data)")
  case None
  then show ?thesis by (simp add: example_column_entry)
next
  case (Some v)
  from find_Some_holds [OF Some] Some show ?thesis
    by (simp add: example_column_entry loose_eq_null_def)
qed

text \<open>
  Claim C3, as the code has it. The strings \<^verbatim>\<open>NA\<close> and \<^verbatim>\<open>NULL\<close>, the empty string and every
  string of white space only are classified \<^verbatim>\<open>text\<close>. Of these values only the empty
  string is never the example of a column (nor is \<^verbatim>\<open>undefined\<close>): the guard of the scan
  is \<^verbatim>\<open>value !== "" && value != null\<close>, so any other string, \<^verbatim>\<open>NA\<close>, \<^verbatim>\<open>NULL\<close> and white
  space included, becomes the example when what \<^verbatim>\<open>row[header]\<close> reads from every row
  before it is the empty string, \<^verbatim>\<open>null\<close> or \<^verbatim>\<open>undefined\<close>. (A row that lacks the key reads
  as \<^verbatim>\<open>undefined\<close> only in a column that is not named like a property of
  \<^verbatim>\<open>Object.prototype\<close>; nothing is stated here of the other columns.)
\<close>

theorem na_like_values_are_text:
  "((s = ''NA'' \<or> s = ''NULL'' \<or> s = '''' \<or> list_all is_white_space s)
      \<longrightarrow> detectType rt (Str s) = ''text'')
   \<and> (\<forall>es e. generateDataDictionary rt data = Array es \<and> e \<in> set es
         \<longrightarrow> example e \<noteq> Str '''' \<and> example e \<noteq> Undefined)
   \<and> (\<forall>pre row post h.
         data = pre @ row # post
         \<and> (\<forall>r\<in>set pre. get_prop r h = Str '''' \<or> loose_eq_null (get_prop r h))
         \<and> get_prop row h = Str s \<and> s \<noteq> ''''
         \<longrightarrow> example (column_entry rt data h) = Str s)"
proof (intro conjI allI impI)
  assume "s = ''NA'' \<or> s = ''NULL'' \<or> s = '''' \<or> list_all is_white_space s"
  then show "detectType rt (Str s) = ''text''" by (rule detectType_na_like)
next
  fix es e
  assume "generateDataDictionary rt data = Array es \<and> e \<in> set es"
  then obtain h where "e = column_entry rt data h"
    using generateDataDictionary_Array [of rt data es] by auto
  then show "example e \<noteq> Str ''''" and "example e \<noteq> Undefined"
    using example_never_empty [of rt data h] by simp_all
next
  fix pre row post h
  assume a: "data = pre @ row # post
         \<and> (\<forall>r\<in>set pre. get_prop r h = Str '''' \<or> loose_eq_null (get_prop r h))
         \<and> get_prop row h = Str s \<and> s \<noteq> ''''"
  let ?P = "\<lambda>v. v \<noteq> Str '''' \<and> \<not> loose_eq_null v"
  let ?f = "\<lambda>row. get_prop row h"
  from a have "\<forall>x\<in>set (map ?f pre). \<not> ?P x" and "?P (?f row)"
    by (auto simp: loose_eq_null_def)
  then have "List.find ?P (map ?f pre @ ?f row # map ?f post) = Some (?f row)"
    by (rule find_after_skipped)
  with a show "example (column_entry rt data h) = Str s"
    by (simp add: example_column_entry)
qed

theorem na_like_values_witness:
  "detectType utc_runtime (Str ''NULL'') = ''text''
   \<and> detectType utc_runtime (Str [CHR 0x20, CHR 0x09]) = ''text''
   \<and> example (column_entry utc_runtime [[(''c'', Str '''')], [(''d'', Str ''x'')], [(''c'', Str ''NULL'')]] ''c'')
       = Str ''NULL''"
proof -
  let ?data = "[[(''c'', Str '''')], [(''d'', Str ''x'')], [(''c'', Str ''NULL'')]]"
  note t = na_like_values_are_text [of "''NULL''" utc_runtime ?data]
  have 1: "detectType utc_runtime (Str ''NULL'') = ''text''"
    using t by simp
  have 2: "detectType utc_runtime (Str [CHR 0x20, CHR 0x09]) = ''text''"
    using na_like_values_are_text [of "[CHR 0x20, CHR 0x09]" utc_runtime "[]"]
    by (simp add: is_white_space_def)
  have 3: "example (column_entry utc_runtime ?data ''c'') = Str ''NULL''"
    using t [THEN conjunct2, THEN conjunct2, rule_format,
        of "[[(''c'', Str '''')], [(''d'', Str ''x'')]]" "[(''c'', Str ''NULL'')]" "[]" "''c''"]
    by (simp add: get_prop_def loose_eq_null_def Object_prototype_names_def)
  from 1 2 3 show ?thesis by simp
qed

text \<open>
  The column \<^verbatim>\<open>["", "NA", "hello"]\<close>: its example is \<^verbatim>\<open>NA\<close>, a value classified \<^verbatim>\<open>text\<close> by
  the rule of the NA-like values.
\<close>

theorem na_becomes_example_counterexample:
  "detectType utc_runtime (Str ''NA'') = ''text''
   \<and> generateDataDictionary utc_runtime
       [[(''c'', Str '''')], [(''c'', Str ''NA'')], [(''c'', Str ''hello'')]]
     = Array [\<lparr>column = ''c'', type = ''text'', example = Str ''NA'', description = ''''\<rparr>]"
  by code_simp

subsection \<open>Dates\<close>

text \<open>
  A value that reaches the date rule and parses is \<^verbatim>\<open>date\<close> when its local time of day
  has hour, minute and second zero, and \<^verbatim>\<open>datetime\<close> otherwise.
\<close>

lemma detectType_date_rule:
  assumes "s \<noteq> []" and "trim s \<noteq> []" and "s \<noteq> ''NA''" and "s \<noteq> ''NULL''"
    and "\<not> array_includes [''true'', ''false'', ''True'', ''False'', ''0'', ''1''] (Str s)"
    and "\<not> regex_test int_re s" and "\<not> regex_test float_re s"
    and "Date_parse rt s = Some t"
  shows "detectType rt (Str s) =
     (if getHours rt t = 0 \<and> getMinutes rt t = 0 \<and> getSeconds rt t = 0
      then ''date'' else ''datetime'')"
  using assms by (simp add: detectType_def loose_eq_null_def)

lemma date_only_2023: "parse_date_only ''2023-01-01'' = Some 1672531200000"
  by code_simp

lemma detectType_2023_01_01:
  "detectType rt (Str ''2023-01-01'') =
     (if getHours rt 1672531200000 = 0 \<and> getMinutes rt 1672531200000 = 0
         \<and> getSeconds rt 1672531200000 = 0
      then ''date'' else ''datetime'')"
proof -
  have ws: "trim ''2023-01-01'' \<noteq> []"
    by (simp add: trim_empty_iff is_white_space_def)
  have i: "\<not> regex_test int_re ''2023-01-01''" by code_simp
  have f: "\<not> regex_test float_re ''2023-01-01''" by code_simp
  show ?thesis
    using ws i f
    by (simp add: detectType_def loose_eq_null_def array_includes_def
        Date_parse_def date_only_2023)
qed

text \<open>
  Claim C6. The string \<^verbatim>\<open>2023-01-01\<close> has the date-only form, so it is parsed as midnight
  UTC, and the getters read that instant in local time: on a host five hours behind
  UTC the hour is 19 and the value is classified \<^verbatim>\<open>datetime\<close>, not \<^verbatim>\<open>date\<close>; on a host in
  UTC it is classified \<^verbatim>\<open>date\<close>.
\<close>

theorem date_only_string_read_in_local_time:
  "detectType utc_minus5_runtime (Str ''2023-01-01'') = ''datetime''
   \<and> getHours utc_minus5_runtime 1672531200000 = 19
   \<and> detectType utc_runtime (Str ''2023-01-01'') = ''date''"
  by (simp add: detectType_2023_01_01 getHours_def getMinutes_def getSeconds_def LocalTime_def
      utc_minus5_runtime_def utc_runtime_def)

section \<open>Comparing schemas\<close>

lemma set_Object_entries: "set (Object_entries obj) = set obj"
  by (auto simp: Object_entries_def)

lemma set_Object_keys: "set (Object_keys obj) = fst ` set obj"
  by (simp add: Object_keys_def set_Object_entries)

lemma mset_Object_entries: "mset (Object_entries obj) = mset obj"
  by (simp add: Object_entries_def)

lemma distinct_Object_keys:
  "distinct (map fst obj) \<Longrightarrow> distinct (Object_keys obj)"
proof -
  have "mset (Object_keys obj) = mset (map fst obj)"
    unfolding Object_keys_def by (simp add: mset_Object_entries)
  then show "distinct (map fst obj) \<Longrightarrow> distinct (Object_keys obj)"
    by (metis mset_eq_imp_distinct_iff)
qed

lemma map_of_fold_update:
  "map_of (fold (\<lambda>(k, v) obj. AList.update k v obj) es acc) = map_of acc ++ map_of (rev es)"
proof (induction es arbitrary: acc)
  case Nil
  show ?case by simp
next
  case (Cons e es)
  obtain k v where e: "e = (k, v)" by (cases e)
  have "map_of (fold (\<lambda>(k, v) obj. AList.update k v obj) es (AList.update k v acc)) =
      map_of (AList.update k v acc) ++ map_of (rev es)"
    by (rule Cons.IH)
  also have "\<dots> = map_of acc ++ map_of (rev (e # es))"
    by (rule ext) (simp add: e update_conv map_add_def split: option.splits)
  finally show ?case by (simp add: e)
qed

lemma distinct_fold_update:
  "distinct (map fst acc) \<Longrightarrow>
   distinct (map fst (fold (\<lambda>(k, v) obj. AList.update k v obj) es acc))"
  by (induction es arbitrary: acc) (auto simp: distinct_update)

lemma map_of_schemaDict:
  "map_of (schemaDict schema) = map_of (rev (map (\<lambda>f. (id_field f, type_field f)) schema))"
  by (simp add: schemaDict_def Object_fromEntries_def map_of_fold_update)

lemma distinct_schemaDict: "distinct (map fst (schemaDict schema))"
  by (simp add: schemaDict_def Object_fromEntries_def distinct_fold_update)

lemma keys_schemaDict: "fst ` set (schemaDict schema) = id_field ` set schema"
proof -
  have "fst ` set (schemaDict schema) = dom (map_of (schemaDict schema))"
    by (simp add: dom_map_of_conv_image_fst)
  also have "\<dots> = fst ` set (rev (map (\<lambda>f. (id_field f, type_field f)) schema))"
    unfolding map_of_schemaDict by (rule dom_map_of_conv_image_fst)
  also have "\<dots> = id_field ` set schema"
    by (simp add: image_image)
  finally show ?thesis .
qed

lemma typeMismatches_iff:
  "k \<in> set (typeMismatches (compareSchemas src dst)) \<longleftrightarrow>
     k \<in> id_field ` set src \<and> map_of (schemaDict src) k \<noteq> map_of (schemaDict dst) k"
  by (simp add: compareSchemas_def Let_def set_Object_keys keys_schemaDict)

lemma same_name_sets_give_sameNames:
  assumes "id_field ` set src = id_field ` set dst"
  shows "sameNames (compareSchemas src dst)"
proof -
  let ?a = "Object_keys (schemaDict src)" and ?b = "Object_keys (schemaDict dst)"
  have "set ?a = set ?b"
    using assms by (simp add: set_Object_keys keys_schemaDict)
  moreover have "distinct ?a" "distinct ?b"
    by (simp_all add: distinct_Object_keys distinct_schemaDict)
  ultimately have "sort ?a = sort ?b"
    by (intro sorted_distinct_set_unique) simp_all
  then show ?thesis
    by (simp add: compareSchemas_def Let_def)
qed

lemma comma_free_prefix_unique:
  assumes "CHR '','' \<notin> set x" and "CHR '','' \<notin> set y"
    and "x @ CHR '','' # r = y @ CHR '','' # r'"
  shows "x = y \<and> r = r'"
proof -
  have tw: "takeWhile (\<lambda>c. c \<noteq> CHR '','') (z @ CHR '','' # q) = z"
    if "CHR '','' \<notin> set z" for z q
    using that by (induction z) auto
  have "takeWhile (\<lambda>c. c \<noteq> CHR '','') (x @ CHR '','' # r) = x"
    using assms(1) by (rule tw)
  moreover have "takeWhile (\<lambda>c. c \<noteq> CHR '','') (y @ CHR '','' # r') = y"
    using assms(2) by (rule tw)
  ultimately have "x = y" using assms(3) by simp
  with assms(3) show ?thesis by simp
qed

lemma join_inject:
  assumes "\<forall>x\<in>set xs. CHR '','' \<notin> set x" and "\<forall>y\<in>set ys. CHR '','' \<notin> set y"
    and "xs \<noteq> []" and "ys \<noteq> []" and "join xs = join ys"
  shows "xs = ys"
  using assms
proof (induction xs arbitrary: ys rule: join.induct)
  case 1
  then show ?case by simp
next
  case (2 x)
  then obtain y ys' where ys: "ys = y # ys'" by (cases ys) auto
  show ?case
  proof (cases ys')
    case Nil
    with 2 ys show ?thesis by simp
  next
    case (Cons z zs)
    with 2 ys have "CHR '','' \<in> set x" by (metis append_Cons in_set_conv_decomp join.simps(2,3))
    with 2 show ?thesis by simp
  qed
next
  case (3 x x' xs)
  then obtain y ys' where ys: "ys = y # ys'" by (cases ys) auto
  show ?case
  proof (cases ys')
    case Nil
    with 3 ys have "CHR '','' \<in> set y" by (metis append_Cons in_set_conv_decomp join.simps(2,3))
    with 3 ys show ?thesis by simp
  next
    case (Cons z zs)
    with 3 ys have eq: "x @ CHR '','' # join (x' # xs) = y @ CHR '','' # join (z # zs)"
      by simp
    have "x = y \<and> join (x' # xs) = join (z # zs)"
      using 3 ys by (intro comma_free_prefix_unique [OF _ _ eq]) simp_all
    moreover from this have "x' # xs = z # zs"
      using 3 ys Cons by (intro "3.IH") simp_all
    ultimately show ?thesis using ys Cons by simp
  qed
qed

lemma join_empty_iff:
  "\<forall>x\<in>set xs. x \<noteq> [] \<Longrightarrow> join xs = [] \<longleftrightarrow> xs = []"
  by (induction xs rule: join.induct) auto

lemma sameNames_without_commas:
  assumes "\<forall>f\<in>set src \<union> set dst. id_field f \<noteq> [] \<and> CHR '','' \<notin> set (id_field f)"
  shows "sameNames (compareSchemas src dst) \<longleftrightarrow> id_field ` set src = id_field ` set dst"
proof
  assume "id_field ` set src = id_field ` set dst"
  then show "sameNames (compareSchemas src dst)" by (rule same_name_sets_give_sameNames)
next
  let ?a = "sort (Object_keys (schemaDict src))" and ?b = "sort (Object_keys (schemaDict dst))"
  assume "sameNames (compareSchemas src dst)"
  then have j: "join ?a = join ?b"
    by (simp add: compareSchemas_def Let_def)
  have sa: "set ?a = id_field ` set src" and sb: "set ?b = id_field ` set dst"
    by (simp_all add: set_Object_keys keys_schemaDict)
  have na: "\<forall>x\<in>set ?a. x \<noteq> [] \<and> CHR '','' \<notin> set x"
    and nb: "\<forall>x\<in>set ?b. x \<noteq> [] \<and> CHR '','' \<notin> set x"
    unfolding sa sb using assms by auto
  have "?a = ?b"
  proof (cases "?a = [] \<or> ?b = []")
    case True
    then show ?thesis using j na nb join_empty_iff [of ?a] join_empty_iff [of ?b] by auto
  next
    case False
    then show ?thesis using j na nb by (intro join_inject) auto
  qed
  then have "set ?a = set ?b" by simp
  then show "id_field ` set src = id_field ` set dst"
    unfolding sa sb .
qed

text \<open>
  Claim C10. The names reported in \<^verbatim>\<open>typeMismatches\<close> are the names of the source whose
  type is not the type the destination has for that name (\<open>typeMismatches_iff\<close>), and
  equal sets of names give \<^verbatim>\<open>sameNames\<close> (\<open>same_name_sets_give_sameNames\<close>). The converse
  holds when no name is empty or contains a comma (\<open>sameNames_without_commas\<close>), and
  not in general: \<^verbatim>\<open>sameNames\<close> compares the sorted names joined by commas, so the
  source with the single field \<^verbatim>\<open>a,b\<close> and the destination with the fields \<^verbatim>\<open>a\<close> and \<^verbatim>\<open>b\<close>
  have \<^verbatim>\<open>sameNames\<close> true.
\<close>

theorem sameNames_joined_strings:
  "sameNames (compareSchemas
      [\<lparr>id_field = ''a,b'', type_field = ''text'', info_field = None\<rparr>]
      [\<lparr>id_field = ''a'', type_field = ''text'', info_field = None\<rparr>,
       \<lparr>id_field = ''b'', type_field = ''text'', info_field = None\<rparr>])
   \<and> set (map id_field [\<lparr>id_field = ''a,b'', type_field = ''text'', info_field = None\<rparr>])
     \<noteq> set (map id_field [\<lparr>id_field = ''a'', type_field = ''text'', info_field = None\<rparr>,
       \<lparr>id_field = ''b'', type_field = ''text'', info_field = None\<rparr>])"
  by code_simp

end
